theory Spec2Isabelle
  imports Main "HOL-Library.Sublist"
begin

section \<open>Python values used by ralph.py\<close>

text \<open>
  Exceptions are values. Only subclasses of Python's \<open>Exception\<close> are modelled: these are
  what the handlers \<open>except Exception\<close> of the source catch. \<open>Exception msg\<close> stands for
  the two \<open>raise Exception(...)\<close> of the source and for whatever a backend raises.
\<close>

datatype exn =
    FileNotFoundError
  | JSONDecodeError
  | AttributeError
  | TypeError
  | Exception string

text \<open>
  The result of \<open>json.load\<close>. An object is the association list of its members (keys
  distinct, as in the dict that \<open>json.load\<close> builds); numbers are the integral ones.
\<close>

datatype json =
    JNull
  | JBool bool
  | JInt int
  | JStr string
  | JArr "json list"
  | JObj "(string \<times> json) list"

text \<open>Python truthiness, as used by \<open>if current_branch\<close>.\<close>

fun truthy :: "json \<Rightarrow> bool" where
  "truthy JNull = False"
| "truthy (JBool b) = b"
| "truthy (JInt n) = (n \<noteq> 0)"
| "truthy (JStr s) = (s \<noteq> [])"
| "truthy (JArr xs) = (xs \<noteq> [])"
| "truthy (JObj kvs) = (kvs \<noteq> [])"

text \<open>\<open>d.get(key, default)\<close>: only a dict has the method.\<close>

fun py_get :: "json \<Rightarrow> string \<Rightarrow> json \<Rightarrow> exn + json" where
  "py_get (JObj kvs) k d = Inr (case map_of kvs k of None \<Rightarrow> d | Some v \<Rightarrow> v)"
| "py_get _ k d = Inl AttributeError"

subsection \<open>String operations\<close>

text \<open>
  \<open>needle in haystack\<close> on strings: the needle occurs as a contiguous block.
\<close>

primrec contains :: "string \<Rightarrow> string \<Rightarrow> bool" where
  "contains needle [] = (needle = [])"
| "contains needle (c # cs) = (prefix needle (c # cs) \<or> contains needle cs)"

text \<open>
  \<open>s.replace(old, new)\<close>: every occurrence of \<open>old\<close>, scanning from the left and never
  overlapping, becomes \<open>new\<close>. With an empty \<open>old\<close> Python puts \<open>new\<close> before every
  character and at the end.
\<close>

function str_replace :: "string \<Rightarrow> string \<Rightarrow> string \<Rightarrow> string" where
  "str_replace old new [] = (if old = [] then new else [])"
| "str_replace old new (c # cs) =
     (if old = [] then new @ c # str_replace old new cs
      else if prefix old (c # cs) then new @ str_replace old new (drop (length old) (c # cs))
      else c # str_replace old new cs)"
  by pat_completeness auto
termination
proof (relation "measure (\<lambda>(old, new, s). length s)")
  fix old new :: string and c :: char and cs :: string
  assume "old \<noteq> []"
  then have "0 < length old" by simp
  then have "length (drop (length old) (c # cs)) < length (c # cs)" by simp
  then show "((old, new, drop (length old) (c # cs)), (old, new, c # cs))
      \<in> measure (\<lambda>(old, new, s). length s)" by simp
qed simp_all

text \<open>
  A \<open>char\<close> stands for a code point of a Python \<open>str\<close>, from U+0000 to U+00FF; text with a
  code point beyond U+00FF is outside the type. \<open>is_space\<close> is \<open>str.isspace\<close> on these code
  points: the ten ASCII ones, U+0085 (next line) and U+00A0 (no-break space).
  \<open>s.strip()\<close> removes such characters at both ends.
\<close>

definition is_space :: "char \<Rightarrow> bool" where
  "is_space c = (c \<in> {CHR 0x09, CHR 0x0A, CHR 0x0B, CHR 0x0C, CHR 0x0D,
                       CHR 0x1C, CHR 0x1D, CHR 0x1E, CHR 0x1F, CHR '' '',
                       CHR 0x85, CHR 0xA0})"

definition str_strip :: "string \<Rightarrow> string" where
  "str_strip s = rev (dropWhile is_space (rev (dropWhile is_space s)))"

text \<open>
  \<open>dir / name\<close> of pathlib on POSIX paths kept as text, for the text \<open>dir\<close> of a directory other
  than the root and a \<open>name\<close> that pathlib leaves as it is: the fixed file names, and a name
  already reduced by \<open>pure_tail\<close> below.
\<close>

definition path_join :: "string \<Rightarrow> string \<Rightarrow> string" where
  "path_join d n = d @ ''/'' @ n"

text \<open>
  What pathlib does to the text of a joined name: it is cut at the slashes, the empty
  components and the components \<open>.\<close> are dropped (so that doubled and trailing slashes go),
  \<open>..\<close> is kept, and the rest is joined again. \<open>pure_tail\<close> does this to the part of a name
  that follows a prefix without a slash: its first component continues the last one of the
  prefix and is kept whatever it is.
\<close>

fun split_sep :: "string \<Rightarrow> string list" where
  "split_sep [] = [[]]"
| "split_sep (c # cs) =
     (if c = CHR ''/'' then [] # split_sep cs
      else (case split_sep cs of [] \<Rightarrow> [[c]] | part # parts \<Rightarrow> (c # part) # parts))"

fun join_sep :: "string list \<Rightarrow> string" where
  "join_sep [] = []"
| "join_sep [part] = part"
| "join_sep (part # next_part # parts) = part @ ''/'' @ join_sep (next_part # parts)"

definition pure_tail :: "string \<Rightarrow> string" where
  "pure_tail s =
     (case split_sep s of
        [] \<Rightarrow> []
      | first # parts \<Rightarrow>
          join_sep (first # filter (\<lambda>part. part \<noteq> [] \<and> part \<noteq> ''.'') parts))"

section \<open>Configuration, the outside world, the state\<close>

record LLMConfig =
  provider :: string
  model :: string
  apiKey :: string
  ollamaUrl :: string

text \<open>
  What the program asks of its surroundings and cannot change:
  \<^item> \<open>json_loads\<close>: the parser behind \<open>json.load\<close>, \<open>None\<close> for a JSONDecodeError;
  \<^item> \<open>date_str\<close>, \<open>now_str\<close>: \<open>datetime.now()\<close> as \<open>%Y-%m-%d\<close> and as printed;
  \<^item> \<open>ollama_models\<close>: the names listed by the Ollama service at a URL, \<open>None\<close> when the
    import, the connection or the reading of the listing raises;
  \<^item> \<open>env_api_key\<close>: \<open>os.getenv('ANTHROPIC_API_KEY')\<close>;
  \<^item> \<open>amp_path\<close>: \<open>shutil.which('amp')\<close>;
  \<^item> \<open>read_prompt i\<close>: opening and reading prompt.md in iteration \<open>i\<close>. The agent behind a
    backend may rewrite the directory between iterations, so the read is indexed by the
    iteration and not taken from the store of the setup phase;
  \<^item> \<open>chat_ollama\<close>, \<open>chat_claude\<close>, \<open>chat_amp\<close>: the three backend exchanges, by iteration
    and prompt, each returning the response text or raising.
\<close>

record world =
  json_loads :: "string \<Rightarrow> json option"
  date_str :: string
  now_str :: string
  ollama_models :: "string \<Rightarrow> string list option"
  env_api_key :: "string option"
  amp_path :: "string option"
  read_prompt :: "int \<Rightarrow> exn + string"
  chat_ollama :: "int \<Rightarrow> string \<Rightarrow> exn + string"
  chat_claude :: "int \<Rightarrow> string \<Rightarrow> exn + string"
  chat_amp :: "int \<Rightarrow> string \<Rightarrow> exn + string"

text \<open>What the program does that can be observed from outside, in order.\<close>

datatype event =
    Stderr string
  | Mkdir string
  | Copy string string
  | Write string string
  | Probe string
  | ChatCall int string
  | Backend string int string
  | StartupError exn
  | IterationError int exn
  | Sleep nat

text \<open>
  The mutable state: the files and directories of the run directory, the memo
  \<open>_detected_provider\<close> of the client, and the events so far.
\<close>

record state =
  files :: "string \<Rightarrow> string option"
  dirs :: "string set"
  detected_provider :: "string option"
  trace :: "event list"

definition log :: "event \<Rightarrow> state \<Rightarrow> state" where
  "log e st = st\<lparr>trace := trace st @ [e]\<rparr>"

text \<open>The paths fixed by \<open>RalphOrchestrator.__init__\<close>.\<close>

record orchestrator =
  prd_file :: string
  progress_file :: string
  archive_dir :: string
  last_branch_file :: string
  prompt_file :: string

definition orchestrator_paths :: "string \<Rightarrow> orchestrator" where
  "orchestrator_paths script_dir =
     \<lparr>prd_file = path_join script_dir ''prd.json'',
      progress_file = path_join script_dir ''progress.txt'',
      archive_dir = path_join script_dir ''archive'',
      last_branch_file = path_join script_dir ''.last-branch'',
      prompt_file = path_join script_dir ''prompt.md''\<rparr>"

section \<open>RalphLLMClient\<close>

definition check_ollama :: "world \<Rightarrow> LLMConfig \<Rightarrow> bool" where
  "check_ollama w cfg =
     (case ollama_models w (ollamaUrl cfg) of
        None \<Rightarrow> False
      | Some model_names \<Rightarrow>
          if model cfg \<in> set model_names then True
          else if (model cfg @ '':latest'') \<in> set model_names then True
          else list_ex (\<lambda>name. prefix (model cfg @ '':'') name) model_names)"

definition check_claude :: "world \<Rightarrow> LLMConfig \<Rightarrow> bool" where
  "check_claude w cfg =
     (if apiKey cfg \<noteq> [] then True
      else (case env_api_key w of None \<Rightarrow> False | Some k \<Rightarrow> k \<noteq> []))"

definition check_amp :: "world \<Rightarrow> bool" where
  "check_amp w = (amp_path w \<noteq> None)"

definition no_provider_msg :: string where
  "no_provider_msg =
     ''No LLM provider available. Please configure Ollama, Claude API key, or install Amp.''"

text \<open>
  \<open>detect_provider\<close>: the memo is used when it is truthy (neither \<open>None\<close> nor the empty
  string); a pinned provider is returned as it is; otherwise the three probes run in order.
\<close>

definition detect_provider :: "world \<Rightarrow> LLMConfig \<Rightarrow> state \<Rightarrow> (exn + string) \<times> state" where
  "detect_provider w cfg st =
     (case (case detected_provider st of None \<Rightarrow> None
            | Some p \<Rightarrow> if p \<noteq> [] then Some p else None) of
        Some p \<Rightarrow> (Inr p, st)
      | None \<Rightarrow>
          if provider cfg \<noteq> ''auto''
          then (Inr (provider cfg), st\<lparr>detected_provider := Some (provider cfg)\<rparr>)
          else
            (let st1 = log (Probe ''ollama'') st in
             if check_ollama w cfg
             then (Inr ''ollama'', st1\<lparr>detected_provider := Some ''ollama''\<rparr>)
             else
               (let st2 = log (Probe ''claude'') st1 in
                if check_claude w cfg
                then (Inr ''claude'', st2\<lparr>detected_provider := Some ''claude''\<rparr>)
                else
                  (let st3 = log (Probe ''amp'') st2 in
                   if check_amp w
                   then (Inr ''amp'', st3\<lparr>detected_provider := Some ''amp''\<rparr>)
                   else (Inl (Exception no_provider_msg), st3)))))"

text \<open>
  \<open>chat\<close>: the iteration index \<open>i\<close> is not an argument of the source; it tells the world
  which exchange this is.
\<close>

definition chat :: "world \<Rightarrow> LLMConfig \<Rightarrow> int \<Rightarrow> string \<Rightarrow> state \<Rightarrow> (exn + string) \<times> state" where
  "chat w cfg i prompt st =
     (case detect_provider w cfg (log (ChatCall i prompt) st) of
        (Inl e, st1) \<Rightarrow> (Inl e, st1)
      | (Inr p, st1) \<Rightarrow>
          if p = ''ollama'' then (chat_ollama w i prompt, log (Backend ''ollama'' i prompt) st1)
          else if p = ''claude'' then (chat_claude w i prompt, log (Backend ''claude'' i prompt) st1)
          else if p = ''amp'' then (chat_amp w i prompt, log (Backend ''amp'' i prompt) st1)
          else (Inl (Exception (''Unknown provider: '' @ p)), st1))"

section \<open>RalphOrchestrator\<close>

definition progress_header :: "world \<Rightarrow> string" where
  "progress_header w =
     ''# Ralph Progress Log'' @ [CHR 0x0A] @ ''Started: '' @ now_str w @ [CHR 0x0A]
       @ ''---'' @ [CHR 0x0A]"

definition init_progress_file :: "world \<Rightarrow> orchestrator \<Rightarrow> state \<Rightarrow> state" where
  "init_progress_file w orc st =
     log (Write (progress_file orc) (progress_header w))
       (st\<lparr>files := (files st)(progress_file orc \<mapsto> progress_header w)\<rparr>)"

definition copy_file :: "string \<Rightarrow> string \<Rightarrow> state \<Rightarrow> state" where
  "copy_file src dst st =
     (case files st src of
        None \<Rightarrow> st
      | Some content \<Rightarrow> log (Copy src dst) (st\<lparr>files := (files st)(dst \<mapsto> content)\<rparr>))"

text \<open>
  \<open>archive_previous_run\<close>. The two early exits and the two raising reads come first; the
  archive is made when the current branch is truthy, the stripped marker is not empty and
  the two differ. The date printed by \<open>strftime('%Y-%m-%d')\<close> has no slash, so that pathlib
  reduces the folder name as \<open>pure_tail\<close> says. \<open>copy_file\<close> does nothing for a missing
  source, which is the test \<open>exists()\<close> before each \<open>shutil.copy\<close>. The operations on files
  and directories are taken to succeed: the failures of the operating system (permissions,
  a file in the place of a directory) are not part of the model.
\<close>

definition archive_previous_run :: "world \<Rightarrow> orchestrator \<Rightarrow> state \<Rightarrow> (exn + unit) \<times> state" where
  "archive_previous_run w orc st =
     (case (files st (prd_file orc), files st (last_branch_file orc)) of
        (Some prd_text, Some marker_text) \<Rightarrow>
          (case json_loads w prd_text of
             None \<Rightarrow> (Inl JSONDecodeError, st)
           | Some prd \<Rightarrow>
               (case py_get prd ''branchName'' (JStr '''') of
                  Inl e \<Rightarrow> (Inl e, st)
                | Inr current_branch \<Rightarrow>
                    (let last_branch = str_strip marker_text in
                     if truthy current_branch \<and> last_branch \<noteq> []
                        \<and> current_branch \<noteq> JStr last_branch
                     then
                       (let folder_name = str_replace ''ralph/'' '''' last_branch;
                            archive_folder =
                              path_join (archive_dir orc)
                                (date_str w @ ''-'' @ pure_tail folder_name);
                            st1 = log (Mkdir archive_folder)
                                    (st\<lparr>dirs := insert archive_folder (dirs st)\<rparr>);
                            st2 = copy_file (prd_file orc)
                                    (path_join archive_folder ''prd.json'') st1;
                            st3 = copy_file (progress_file orc)
                                    (path_join archive_folder ''progress.txt'') st2
                        in (Inr (), init_progress_file w orc st3))
                     else (Inr (), st))))
      | _ \<Rightarrow> (Inr (), st))"

text \<open>
  \<open>track_current_branch\<close>. Opening the marker for writing empties it before \<open>write\<close> is
  called, and \<open>write\<close> raises TypeError for a branch name that is not a string.
\<close>

definition track_current_branch :: "world \<Rightarrow> orchestrator \<Rightarrow> state \<Rightarrow> (exn + unit) \<times> state" where
  "track_current_branch w orc st =
     (case files st (prd_file orc) of
        None \<Rightarrow> (Inr (), st)
      | Some prd_text \<Rightarrow>
          (case json_loads w prd_text of
             None \<Rightarrow> (Inl JSONDecodeError, st)
           | Some prd \<Rightarrow>
               (case py_get prd ''branchName'' (JStr '''') of
                  Inl e \<Rightarrow> (Inl e, st)
                | Inr current_branch \<Rightarrow>
                    if truthy current_branch
                    then (case current_branch of
                            JStr b \<Rightarrow>
                              (Inr (), log (Write (last_branch_file orc) b)
                                 (st\<lparr>files := (files st)(last_branch_file orc \<mapsto> b)\<rparr>))
                          | _ \<Rightarrow>
                              (Inl TypeError, log (Write (last_branch_file orc) '''')
                                 (st\<lparr>files := (files st)(last_branch_file orc \<mapsto> '''')\<rparr>)))
                    else (Inr (), st))))"

definition marker :: string where
  "marker = ''<promise>COMPLETE</promise>''"

definition run_iteration ::
  "world \<Rightarrow> LLMConfig \<Rightarrow> int \<Rightarrow> state \<Rightarrow> (exn + string \<times> bool) \<times> state" where
  "run_iteration w cfg i st =
     (case read_prompt w i of
        Inl e \<Rightarrow> (Inl e, st)
      | Inr prompt \<Rightarrow>
          (case chat w cfg i prompt st of
             (Inl e, st1) \<Rightarrow> (Inl e, st1)
           | (Inr output, st1) \<Rightarrow>
               (Inr (output, contains marker output), log (Stderr output) st1)))"

text \<open>
  The body of \<open>for i in range(1, max_iterations + 1)\<close> over the remaining indices. The
  value at the empty list is the \<open>return 1\<close> that follows the loop.
\<close>

fun main_loop :: "world \<Rightarrow> LLMConfig \<Rightarrow> int list \<Rightarrow> state \<Rightarrow> int \<times> state" where
  "main_loop w cfg [] st = (1, st)"
| "main_loop w cfg (i # rest) st =
     (case run_iteration w cfg i st of
        (Inr (output, is_complete), st1) \<Rightarrow>
          if is_complete then (0, st1)
          else main_loop w cfg rest (log (Sleep 2) st1)
      | (Inl e, st1) \<Rightarrow>
          main_loop w cfg rest (log (Sleep 2) (log (IterationError i e) st1)))"

text \<open>The three steps under the comment \<open># Setup\<close> of \<open>run\<close>.\<close>

definition run_setup :: "world \<Rightarrow> orchestrator \<Rightarrow> state \<Rightarrow> (exn + unit) \<times> state" where
  "run_setup w orc st =
     (case archive_previous_run w orc st of
        (Inl e, st1) \<Rightarrow> (Inl e, st1)
      | (Inr _, st1) \<Rightarrow>
          (case track_current_branch w orc st1 of
             (Inl e, st2) \<Rightarrow> (Inl e, st2)
           | (Inr _, st2) \<Rightarrow>
               (Inr (), if files st2 (progress_file orc) = None
                        then init_progress_file w orc st2 else st2)))"

text \<open>
  \<open>run\<close>: \<open>Inr code\<close> is the returned exit code, \<open>Inl e\<close>
  an exception that leaves it.
\<close>

definition run ::
  "world \<Rightarrow> orchestrator \<Rightarrow> LLMConfig \<Rightarrow> int \<Rightarrow> state \<Rightarrow> (exn + int) \<times> state" where
  "run w orc cfg max_iterations st =
     (case run_setup w orc st of
        (Inl e, st1) \<Rightarrow> (Inl e, st1)
      | (Inr _, st1) \<Rightarrow>
          (case detect_provider w cfg st1 of
             (Inl e, st2) \<Rightarrow> (Inr 1, log (StartupError e) st2)
           | (Inr p, st2) \<Rightarrow>
               (case main_loop w cfg [1..max_iterations] st2 of
                  (code, st3) \<Rightarrow> (Inr code, st3))))"

section \<open>load_config and main\<close>

text \<open>
  How the process ends: \<open>sys.exit(code)\<close>, or an exception nobody catches (the interpreter
  prints the traceback and the status is 1).
\<close>

datatype ending = Exited int | Traceback exn

fun status :: "ending \<Rightarrow> int" where
  "status (Exited c) = c"
| "status (Traceback e) = 1"

text \<open>
  A field of the \<open>llm\<close> object. \<open>LLMConfig\<close> declares every field a \<open>str\<close>; a member holding
  another kind of value is outside that type, and the model stops there with TypeError
  where the source would go on with an ill-typed configuration. No property below is about
  such a file.
\<close>

fun llm_field :: "json \<Rightarrow> string \<Rightarrow> string \<Rightarrow> exn + string" where
  "llm_field (JObj kvs) k d =
     (case map_of kvs k of None \<Rightarrow> Inr d | Some (JStr s) \<Rightarrow> Inr s | Some _ \<Rightarrow> Inl TypeError)"
| "llm_field _ k d = Inl AttributeError"

definition default_config :: LLMConfig where
  "default_config =
     \<lparr>provider = ''auto'', model = ''llama3.1'', apiKey = '''',
      ollamaUrl = ''http://localhost:11434''\<rparr>"

definition config_missing_warning :: "string \<Rightarrow> string" where
  "config_missing_warning config_path =
     ''Warning: Config file not found at '' @ config_path @ '', using defaults''"

definition load_config :: "world \<Rightarrow> string \<Rightarrow> state \<Rightarrow> (ending + LLMConfig) \<times> state" where
  "load_config w config_path st =
     (case files st config_path of
        None \<Rightarrow>
          (Inr default_config, log (Stderr (config_missing_warning config_path)) st)
      | Some text \<Rightarrow>
          (case json_loads w text of
             None \<Rightarrow> (Inl (Exited 1), log (StartupError JSONDecodeError) st)
           | Some data \<Rightarrow>
               (case py_get data ''llm'' (JObj []) of
                  Inl e \<Rightarrow> (Inl (Traceback e), st)
                | Inr llm_data \<Rightarrow>
                    (case (llm_field llm_data ''provider'' ''auto'',
                           llm_field llm_data ''model'' ''llama3.1'',
                           llm_field llm_data ''apiKey'' '''',
                           llm_field llm_data ''ollamaUrl'' ''http://localhost:11434'') of
                       (Inr p, Inr m, Inr k, Inr u) \<Rightarrow>
                         (Inr \<lparr>provider = p, model = m, apiKey = k, ollamaUrl = u\<rparr>, st)
                     | (Inl e, _) \<Rightarrow> (Inl (Traceback e), st)
                     | (_, Inl e, _) \<Rightarrow> (Inl (Traceback e), st)
                     | (_, _, Inl e, _) \<Rightarrow> (Inl (Traceback e), st)
                     | (_, _, _, Inl e) \<Rightarrow> (Inl (Traceback e), st)))))"

text \<open>
  The configuration file chosen by \<open>RalphOrchestrator.__init__\<close>: the \<open>--config\<close> argument
  when it is given and not empty, otherwise config.json in the script directory.
\<close>

definition config_file :: "string \<Rightarrow> string option \<Rightarrow> string" where
  "config_file script_dir config =
     (case config of
        None \<Rightarrow> path_join script_dir ''config.json''
      | Some p \<Rightarrow> if p \<noteq> [] then p else path_join script_dir ''config.json'')"

text \<open>
  How the process ends for a result of \<open>run\<close>: \<open>sys.exit(exit_code)\<close>, or the traceback of
  an exception that left \<open>run\<close>.
\<close>

definition ending_of :: "exn + int \<Rightarrow> ending" where
  "ending_of r = (case r of Inl e \<Rightarrow> Traceback e | Inr code \<Rightarrow> Exited code)"

text \<open>
  \<open>main\<close> after argument parsing: the orchestrator is built (which loads the
  configuration and creates a client with an empty memo), \<open>run\<close> is called and its code is
  the exit status.
\<close>

definition main ::
  "world \<Rightarrow> string \<Rightarrow> int \<Rightarrow> string option \<Rightarrow> state \<Rightarrow> ending \<times> state" where
  "main w script_dir max_iterations config st =
     (case load_config w (config_file script_dir config) st of
        (Inl x, st1) \<Rightarrow> (x, st1)
      | (Inr cfg, st1) \<Rightarrow>
          (case run w (orchestrator_paths script_dir) cfg max_iterations
                  (st1\<lparr>detected_provider := None\<rparr>) of
             (r, st2) \<Rightarrow> (ending_of r, st2)))"

section \<open>Observers used to state the properties\<close>

text \<open>
  The memo holds \<open>p\<close>, so that \<open>detect_provider\<close> answers
  \<open>p\<close> without probing and leaves the state as it is.
\<close>

definition settled :: "LLMConfig \<Rightarrow> string \<Rightarrow> state \<Rightarrow> bool" where
  "settled cfg p st = (detected_provider st = Some p \<and> (p = [] \<longrightarrow> provider cfg = []))"

text \<open>
  What \<open>run_iteration\<close> obtains in iteration \<open>i\<close> once the provider is
  \<open>p\<close>: the error of the prompt read or of the exchange, or the response text.
\<close>

definition iteration_result :: "world \<Rightarrow> string \<Rightarrow> int \<Rightarrow> exn + string" where
  "iteration_result w p i =
     (case read_prompt w i of
        Inl e \<Rightarrow> Inl e
      | Inr prompt \<Rightarrow>
          if p = ''ollama'' then chat_ollama w i prompt
          else if p = ''claude'' then chat_claude w i prompt
          else if p = ''amp'' then chat_amp w i prompt
          else Inl (Exception (''Unknown provider: '' @ p)))"

text \<open>
  The events of the \<open>try\<close> block and its handler in iteration \<open>i\<close>,
  the pacing sleep excluded.
\<close>

definition body_events :: "world \<Rightarrow> string \<Rightarrow> int \<Rightarrow> event list" where
  "body_events w p i =
     (case read_prompt w i of
        Inl e \<Rightarrow> []
      | Inr prompt \<Rightarrow>
          ChatCall i prompt #
          (if p = ''ollama'' \<or> p = ''claude'' \<or> p = ''amp'' then [Backend p i prompt] else []))
     @ (case iteration_result w p i of
          Inl e \<Rightarrow> [IterationError i e]
        | Inr output \<Rightarrow> [Stderr output])"

text \<open>The events of a whole pass of the loop body that does not return.\<close>

definition pass_events :: "world \<Rightarrow> string \<Rightarrow> int \<Rightarrow> event list" where
  "pass_events w p i = body_events w p i @ [Sleep 2]"

text \<open>
  Iteration \<open>i\<close> returns a response that contains the completion marker.
\<close>

definition completes :: "world \<Rightarrow> string \<Rightarrow> int \<Rightarrow> bool" where
  "completes w p i =
     (case iteration_result w p i of Inl e \<Rightarrow> False | Inr output \<Rightarrow> contains marker output)"

text \<open>Several events at once.\<close>

definition emit :: "event list \<Rightarrow> state \<Rightarrow> state" where
  "emit evs st = st\<lparr>trace := trace st @ evs\<rparr>"

text \<open>The iterations in which \<open>chat\<close> was called, in order.\<close>

fun chat_indices :: "event list \<Rightarrow> int list" where
  "chat_indices [] = []"
| "chat_indices (ChatCall i prompt # evs) = i # chat_indices evs"
| "chat_indices (e # evs) = chat_indices evs"

text \<open>The prompt file can be read in iteration \<open>i\<close>.\<close>

definition readable :: "world \<Rightarrow> int \<Rightarrow> bool" where
  "readable w i = (case read_prompt w i of Inl e \<Rightarrow> False | Inr prompt \<Rightarrow> True)"

text \<open>
  A world for examples: Ollama lists the 8b variant of the default model; the first exchange
  times out, the second returns the marker.
\<close>

definition world_A :: world where
  "world_A =
     \<lparr>json_loads = (\<lambda>s. None), date_str = ''2026-01-01'', now_str = ''2026-01-01 09:00:00'',
      ollama_models = (\<lambda>u. Some [''llama3.1:8b'']), env_api_key = None, amp_path = None,
      read_prompt = (\<lambda>i. Inr ''go''),
      chat_ollama = (\<lambda>i prompt. if i = 2 then Inr ''ok <promise>COMPLETE</promise>''
                                 else if i = 1 then Inl (Exception ''timeout'') else Inr ''working''),
      chat_claude = (\<lambda>i prompt. Inr ''working''),
      chat_amp = (\<lambda>i prompt. Inr ''working'')\<rparr>"

text \<open>An empty run directory and a fresh client.\<close>

definition state_A :: state where
  "state_A = \<lparr>files = Map.empty, dirs = {}, detected_provider = None, trace = []\<rparr>"

text \<open>The directories created, in order.\<close>

fun mkdirs :: "event list \<Rightarrow> string list" where
  "mkdirs [] = []"
| "mkdirs (Mkdir f # evs) = f # mkdirs evs"
| "mkdirs (e # evs) = mkdirs evs"

text \<open>
  Example configurations: two pinned providers, the second one unknown to \<open>chat\<close>.
\<close>

definition config_claude :: LLMConfig where
  "config_claude = default_config\<lparr>provider := ''claude''\<rparr>"

definition config_gpt :: LLMConfig where
  "config_gpt = default_config\<lparr>provider := ''gpt4''\<rparr>"

text \<open>As \<open>world_A\<close>, with no Ollama service to reach.\<close>

definition world_C :: world where
  "world_C = world_A\<lparr>ollama_models := (\<lambda>u. None)\<rparr>"

text \<open>A world whose parser accepts only the empty object, and a run directory whose
  config.json is not valid JSON.\<close>

definition world_D :: world where
  "world_D = world_A\<lparr>json_loads := (\<lambda>s. if s = ''{}'' then Some (JObj []) else None)\<rparr>"

definition state_D :: state where
  "state_D = \<lparr>files = [''d/config.json'' \<mapsto> ''{ broken''], dirs = {},
              detected_provider = None, trace = []\<rparr>"

text \<open>
  A world whose parser reads the text \<open>B\<close> as a task descriptor for the branch
  \<open>ralph/taskB\<close>; a run directory left by a run on \<open>ralph/taskA\<close>; one whose marker names a
  branch with \<open>ralph/\<close> in the middle and that has no progress log; and one with a progress
  log but no marker.
\<close>

definition world_E :: world where
  "world_E = world_A\<lparr>json_loads :=
     (\<lambda>s. if s = ''B'' then Some (JObj [(''branchName'', JStr ''ralph/taskB'')]) else None)\<rparr>"

definition state_E :: state where
  "state_E = \<lparr>files = [''d/prd.json'' \<mapsto> ''B'', ''d/.last-branch'' \<mapsto> ''ralph/taskA'',
                       ''d/progress.txt'' \<mapsto> ''old notes''],
              dirs = {}, detected_provider = None, trace = []\<rparr>"


definition state_G :: state where
  "state_G = \<lparr>files = [''d/prd.json'' \<mapsto> ''B'', ''d/progress.txt'' \<mapsto> ''old notes''],
              dirs = {}, detected_provider = None, trace = []\<rparr>"





section \<open>Properties of the string operations\<close>

lemma contains_iff_sublist: "contains needle s \<longleftrightarrow> (\<exists>ps ss. s = ps @ needle @ ss)"
proof (induction s)
  case Nil
  then show ?case by auto
next
  case (Cons c cs)
  have "sublist needle (c # cs) \<longleftrightarrow> prefix needle (c # cs) \<or> sublist needle cs"
    by (rule sublist_Cons_right)
  then show ?case
    using Cons.IH by (simp add: sublist_def)
qed



text \<open>The two operations on the inputs where Python and pathlib are most particular.\<close>

lemma str_strip_examples:
  "str_strip ([CHR 0x85] @ ''ralph/x '' @ [CHR 0xA0, CHR 0x0A]) = ''ralph/x''"
  "str_strip [CHR 0xA0] = []"
  "str_strip ''a b'' = ''a b''"
  by (simp_all add: str_strip_def is_space_def)

lemma pure_tail_examples:
  "pure_tail ''team/fix'' = ''team/fix''"
  "pure_tail ''a//b/'' = ''a/b''"
  "pure_tail ''a/./b'' = ''a/b''"
  "pure_tail ''a/.'' = ''a''"
  "pure_tail ''./a'' = ''./a''"
  "pure_tail ''/x'' = ''/x''"
  "pure_tail ''//a'' = ''/a''"
  "pure_tail ''a/..'' = ''a/..''"
  "pure_tail '''' = ''''"
  by (simp_all add: pure_tail_def)

section \<open>Properties of the loop\<close>

text \<open>
  Once \<open>detect_provider\<close> has answered \<open>p\<close>, every later call answers \<open>p\<close> again and leaves
  the state alone, so that a pass of the loop body is described by \<open>body_events\<close> and
  \<open>completes\<close>.
\<close>

lemma emit_Nil: "emit [] st = st"
  by (simp add: emit_def)

lemma emit_emit: "emit ys (emit xs st) = emit (xs @ ys) st"
  by (simp add: emit_def)

lemma log_emit: "log e st = emit [e] st"
  by (simp add: log_def emit_def)

lemma settled_emit: "settled cfg p (emit evs st) = settled cfg p st"
  by (simp add: settled_def emit_def)

lemma detect_settled: "settled cfg p st \<Longrightarrow> detect_provider w cfg st = (Inr p, st)"
  by (cases "p = []") (simp_all add: settled_def detect_provider_def)

lemma detect_gives_settled:
  "detect_provider w cfg st = (Inr p, st') \<Longrightarrow> settled cfg p st'"
  by (auto simp: settled_def detect_provider_def log_def Let_def
           split: option.splits if_splits)

lemma chat_settled:
  assumes "settled cfg p st"
  shows "chat w cfg i prompt st =
     (if p = ''ollama'' then (chat_ollama w i prompt, emit [ChatCall i prompt, Backend p i prompt] st)
      else if p = ''claude'' then (chat_claude w i prompt, emit [ChatCall i prompt, Backend p i prompt] st)
      else if p = ''amp'' then (chat_amp w i prompt, emit [ChatCall i prompt, Backend p i prompt] st)
      else (Inl (Exception (''Unknown provider: '' @ p)), emit [ChatCall i prompt] st))"
proof -
  have "settled cfg p (emit [ChatCall i prompt] st)"
    using assms by (simp add: settled_emit)
  then have "detect_provider w cfg (log (ChatCall i prompt) st) = (Inr p, emit [ChatCall i prompt] st)"
    by (simp add: log_emit detect_settled)
  then show ?thesis
    by (simp add: chat_def log_emit emit_emit)
qed

lemma main_loop_step:
  assumes "settled cfg p st"
  shows "main_loop w cfg (i # rest) st =
     (if completes w p i then (0, emit (body_events w p i) st)
      else main_loop w cfg rest (emit (pass_events w p i) st))"
proof (cases "read_prompt w i")
  case (Inl e)
  then show ?thesis
    by (simp add: run_iteration_def completes_def iteration_result_def body_events_def
        pass_events_def log_emit emit_emit)
next
  case (Inr prompt)
  then show ?thesis
    using chat_settled [OF assms, of w i prompt]
    by (cases "iteration_result w p i")
       (auto simp: run_iteration_def completes_def iteration_result_def body_events_def
        pass_events_def log_emit emit_emit split: if_splits)
qed

lemma main_loop_append:
  "settled cfg p st \<Longrightarrow> \<forall>i\<in>set pre. \<not> completes w p i \<Longrightarrow>
   main_loop w cfg (pre @ rest) st =
     main_loop w cfg rest (emit (concat (map (pass_events w p) pre)) st)"
proof (induction pre arbitrary: st)
  case Nil
  then show ?case by (simp add: emit_Nil)
next
  case (Cons i pre)
  have s: "settled cfg p (emit (pass_events w p i) st)"
    using Cons.prems(1) by (simp add: settled_emit)
  show ?case
    using Cons.prems Cons.IH [OF s]
    by (simp add: main_loop_step [OF Cons.prems(1)] emit_emit del: main_loop.simps)
qed

lemma main_loop_extends:
  "settled cfg p st \<Longrightarrow>
   \<exists>evs. snd (main_loop w cfg idxs st) = emit evs st \<and> fst (main_loop w cfg idxs st) \<in> {0, 1}"
proof (induction idxs arbitrary: st)
  case Nil
  show ?case by (rule exI [of _ "[]"]) (simp add: emit_Nil)
next
  case (Cons i idxs)
  have s: "settled cfg p (emit (pass_events w p i) st)"
    using Cons.prems by (simp add: settled_emit)
  from Cons.IH [OF s] obtain evs where
    e: "snd (main_loop w cfg idxs (emit (pass_events w p i) st)) = emit evs (emit (pass_events w p i) st)"
       "fst (main_loop w cfg idxs (emit (pass_events w p i) st)) \<in> {0, 1}"
    by blast
  show ?case
  proof (cases "completes w p i")
    case True
    then show ?thesis
      by (simp add: main_loop_step [OF Cons.prems] del: main_loop.simps) blast
  next
    case False
    then show ?thesis
      using e by (simp add: main_loop_step [OF Cons.prems] emit_emit del: main_loop.simps) blast
  qed
qed

lemma chat_indices_append: "chat_indices (xs @ ys) = chat_indices xs @ chat_indices ys"
  by (induction xs rule: chat_indices.induct) simp_all

lemma chat_indices_body:
  "chat_indices (body_events w p i) = (if readable w i then [i] else [])"
  by (simp add: body_events_def readable_def chat_indices_append split: sum.splits)

lemma chat_indices_pass:
  "chat_indices (pass_events w p i) = (if readable w i then [i] else [])"
  by (simp add: pass_events_def chat_indices_append chat_indices_body)

lemma chat_indices_passes:
  "chat_indices (concat (map (pass_events w p) idxs)) = filter (readable w) idxs"
  by (induction idxs) (simp_all add: chat_indices_append chat_indices_pass)

lemma run_after_setup:
  assumes "run_setup w orc st = (Inr (), st1)" and "detect_provider w cfg st1 = (Inr p, st2)"
  shows "run w orc cfg N st =
     (Inr (fst (main_loop w cfg [1..N] st2)), snd (main_loop w cfg [1..N] st2))"
  using assms by (simp add: run_def split: prod.splits)

subsection \<open>Completion\<close>

text \<open>
  Claim C1. Let the setup succeed and the provider be \<open>p\<close>. If iteration \<open>k\<close> of \<open>N\<close> is
  reached (no earlier iteration completed) and its chat output contains the completion
  marker, \<open>run\<close> returns exit code 0; after the setup its events are the full passes
  1 to \<open>k - 1\<close> followed by the body of iteration \<open>k\<close>, with no sleep after it and nothing
  of the iterations \<open>k + 1\<close> to \<open>N\<close>: \<open>chat\<close> is called in iterations up to \<open>k\<close> only.
\<close>

theorem completion_stops_run:
  assumes "run_setup w orc st = (Inr (), st1)"
    and "detect_provider w cfg st1 = (Inr p, st2)"
    and "1 \<le> k" and "k \<le> N"
    and "\<forall>j\<in>{1..<k}. \<not> completes w p j"
    and "completes w p k"
  shows "run w orc cfg N st =
           (Inr 0, emit (concat (map (pass_events w p) [1..k - 1]) @ body_events w p k) st2)
         \<and> chat_indices (concat (map (pass_events w p) [1..k - 1]) @ body_events w p k)
             = filter (readable w) [1..k]"
proof -
  have s2: "settled cfg p st2"
    using assms(2) by (rule detect_gives_settled)
  have split: "[1..N] = [1..k - 1] @ k # [k + 1..N]"
    using assms(3,4) by (rule upto_split3)
  have pre: "\<forall>j\<in>set [1..k - 1]. \<not> completes w p j"
    using assms(3,5) by auto
  have s3: "settled cfg p (emit (concat (map (pass_events w p) [1..k - 1])) st2)"
    using s2 by (simp add: settled_emit)
  have "main_loop w cfg [1..N] st2 =
      main_loop w cfg (k # [k + 1..N]) (emit (concat (map (pass_events w p) [1..k - 1])) st2)"
    unfolding split using s2 pre by (rule main_loop_append)
  also have "\<dots> = (0, emit (concat (map (pass_events w p) [1..k - 1]) @ body_events w p k) st2)"
    using assms(6) by (simp add: main_loop_step [OF s3] emit_emit del: main_loop.simps)
  finally have loop: "main_loop w cfg [1..N] st2 =
      (0, emit (concat (map (pass_events w p) [1..k - 1]) @ body_events w p k) st2)" .
  have k: "[1..k] = [1..k - 1] @ [k]"
    using assms(3) upto_rec2 [of 1 k] by simp
  have "chat_indices (concat (map (pass_events w p) [1..k - 1]) @ body_events w p k)
      = filter (readable w) [1..k]"
    unfolding k by (simp add: chat_indices_append chat_indices_passes chat_indices_body)
  then show ?thesis
    using run_after_setup [OF assms(1,2), of N] loop by simp
qed

theorem completion_stops_run_witness:
  "completes world_A ''ollama'' 2 \<and> (2::int) \<le> 3
   \<and> fst (run world_A (orchestrator_paths ''d'') default_config 3 state_A) = Inr 0
   \<and> chat_indices (trace (snd (run world_A (orchestrator_paths ''d'') default_config 3 state_A)))
       = [1, 2]"
proof -
  let ?orc = "orchestrator_paths ''d''"
  let ?s1 = "snd (run_setup world_A ?orc state_A)"
  let ?s2 = "snd (detect_provider world_A default_config ?s1)"
  have f1: "fst (run_setup world_A ?orc state_A) = Inr ()" by code_simp
  have f2: "fst (detect_provider world_A default_config ?s1) = Inr ''ollama''" by code_simp
  have h1: "run_setup world_A ?orc state_A = (Inr (), ?s1)"
    using f1 by (simp add: prod_eq_iff)
  have h2: "detect_provider world_A default_config ?s1 = (Inr ''ollama'', ?s2)"
    using f2 by (simp add: prod_eq_iff)
  have h5: "\<forall>j\<in>{1..<2::int}. \<not> completes world_A ''ollama'' j"
    by (simp add: completes_def iteration_result_def world_A_def)
  have h6: "completes world_A ''ollama'' 2" by code_simp
  have t: "chat_indices (trace ?s2) = []" by code_simp
  have r: "filter (readable world_A) [1..2] = [1, 2]" by code_simp
  show ?thesis
    using completion_stops_run [OF h1 h2 _ _ h5 h6, of 3] h6 t r
    by (simp add: emit_def chat_indices_append)
qed

subsection \<open>What the setup and the detection leave alone\<close>

lemma mkdirs_append: "mkdirs (xs @ ys) = mkdirs xs @ mkdirs ys"
  by (induction xs rule: mkdirs.induct) simp_all

lemma archive_memo:
  "detected_provider (snd (archive_previous_run w orc st)) = detected_provider st"
  by (simp add: archive_previous_run_def copy_file_def init_progress_file_def log_def Let_def
      split: option.splits sum.splits)

lemma track_memo:
  "detected_provider (snd (track_current_branch w orc st)) = detected_provider st"
  by (simp add: track_current_branch_def log_def split: option.splits sum.splits json.splits)

lemma run_setup_memo:
  "detected_provider (snd (run_setup w orc st)) = detected_provider st"
proof -
  have a: "\<And>s. detected_provider (init_progress_file w orc s) = detected_provider s"
    by (simp add: init_progress_file_def log_def)
  show ?thesis
    using archive_memo [of w orc st]
      track_memo [of w orc "snd (archive_previous_run w orc st)"]
    by (auto simp: run_setup_def a split: prod.splits sum.splits)
qed

lemma archive_chat:
  "chat_indices (trace (snd (archive_previous_run w orc st))) = chat_indices (trace st)"
  by (simp add: archive_previous_run_def copy_file_def init_progress_file_def log_def Let_def
      chat_indices_append split: option.splits sum.splits)


lemma track_chat:
  "chat_indices (trace (snd (track_current_branch w orc st))) = chat_indices (trace st)"
  by (simp add: track_current_branch_def log_def chat_indices_append
      split: option.splits sum.splits json.splits)


lemma run_setup_chat:
  "chat_indices (trace (snd (run_setup w orc st))) = chat_indices (trace st)"
proof -
  have a: "\<And>s. chat_indices (trace (init_progress_file w orc s)) = chat_indices (trace s)"
    by (simp add: init_progress_file_def log_def chat_indices_append)
  show ?thesis
    using archive_chat [of w orc st]
      track_chat [of w orc "snd (archive_previous_run w orc st)"]
    by (auto simp: run_setup_def a split: prod.splits sum.splits)
qed


lemma detect_chat:
  "chat_indices (trace (snd (detect_provider w cfg st))) = chat_indices (trace st)"
  by (simp add: detect_provider_def log_def Let_def chat_indices_append split: option.splits)





subsection \<open>Exhaustion\<close>

lemma sleeps_body: "filter (\<lambda>e. e = Sleep 2) (body_events w p i) = []"
  by (simp add: body_events_def split: sum.splits)

lemma sleeps_passes:
  "length (filter (\<lambda>e. e = Sleep 2) (concat (map (pass_events w p) idxs))) = length idxs"
  by (induction idxs) (simp_all add: pass_events_def sleeps_body)

lemma detect_pinned:
  assumes "detected_provider st = None" and "provider cfg \<noteq> ''auto''"
  shows "detect_provider w cfg st = (Inr (provider cfg), st\<lparr>detected_provider := Some (provider cfg)\<rparr>)"
  using assms by (simp add: detect_provider_def)

lemma detect_none_available:
  assumes "detected_provider st = None" and "provider cfg = ''auto''"
    and "\<not> check_ollama w cfg" and "\<not> check_claude w cfg" and "\<not> check_amp w"
  shows "detect_provider w cfg st =
    (Inl (Exception no_provider_msg), emit [Probe ''ollama'', Probe ''claude'', Probe ''amp''] st)"
  using assms by (simp add: detect_provider_def log_def emit_def Let_def)

text \<open>
  Claim C2, amended. Let the setup succeed and the provider be \<open>p\<close>. If no iteration from 1
  to \<open>N\<close> returns an output with the marker, \<open>run\<close> returns exit code 1 after \<open>N\<close> full
  passes. \<open>chat\<close> is called once in each iteration whose prompt read succeeds, hence
  in each of the \<open>N\<close> iterations when every read succeeds. Each pass ends with the sleep of 2,
  the last pass too: there are as many sleeps as iterations and, for \<open>N \<ge> 1\<close>, the last
  event of the run is a sleep.
\<close>

theorem exhaustion_runs_every_pass:
  assumes "run_setup w orc st = (Inr (), st1)"
    and "detect_provider w cfg st1 = (Inr p, st2)"
    and "\<forall>i\<in>{1..N}. \<not> completes w p i"
  shows "run w orc cfg N st = (Inr 1, emit (concat (map (pass_events w p) [1..N])) st2)
    \<and> chat_indices (concat (map (pass_events w p) [1..N])) = filter (readable w) [1..N]
    \<and> ((\<forall>i\<in>{1..N}. readable w i) \<longrightarrow>
         chat_indices (concat (map (pass_events w p) [1..N])) = [1..N])
    \<and> length (filter (\<lambda>e. e = Sleep 2) (concat (map (pass_events w p) [1..N]))) = length [1..N]
    \<and> (1 \<le> N \<longrightarrow> last (concat (map (pass_events w p) [1..N])) = Sleep 2)"
proof -
  have s2: "settled cfg p st2"
    using assms(2) by (rule detect_gives_settled)
  have pre: "\<forall>i\<in>set [1..N]. \<not> completes w p i"
    using assms(3) by simp
  have "main_loop w cfg ([1..N] @ []) st2 =
      main_loop w cfg [] (emit (concat (map (pass_events w p) [1..N])) st2)"
    using s2 pre by (rule main_loop_append)
  then have loop: "main_loop w cfg [1..N] st2 =
      (1, emit (concat (map (pass_events w p) [1..N])) st2)"
    by simp
  have run: "run w orc cfg N st = (Inr 1, emit (concat (map (pass_events w p) [1..N])) st2)"
    using run_after_setup [OF assms(1,2), of N] loop by simp
  have all: "(\<forall>i\<in>{1..N}. readable w i) \<longrightarrow> filter (readable w) [1..N] = [1..N]"
    by simp
  have last: "1 \<le> N \<longrightarrow> last (concat (map (pass_events w p) [1..N])) = Sleep 2"
  proof
    assume "1 \<le> N"
    then have "[1..N] = [1..N - 1] @ [N]"
      using upto_rec2 [of 1 N] by simp
    then show "last (concat (map (pass_events w p) [1..N])) = Sleep 2"
      by (simp add: pass_events_def)
  qed
  show ?thesis
    using run all last by (simp add: chat_indices_passes sleeps_passes)
qed

theorem exhaustion_runs_every_pass_witness:
  "\<not> completes world_A ''claude'' 1 \<and> \<not> completes world_A ''claude'' 2
   \<and> \<not> completes world_A ''claude'' 3
   \<and> fst (run world_A (orchestrator_paths ''d'') config_claude 3 state_A) = Inr 1
   \<and> chat_indices (concat (map (pass_events world_A ''claude'') [1..3])) = [1, 2, 3]
   \<and> last (concat (map (pass_events world_A ''claude'') [1..3])) = Sleep 2"
proof -
  let ?orc = "orchestrator_paths ''d''"
  let ?s1 = "snd (run_setup world_A ?orc state_A)"
  let ?s2 = "snd (detect_provider world_A config_claude ?s1)"
  have f1: "fst (run_setup world_A ?orc state_A) = Inr ()" by code_simp
  have f2: "fst (detect_provider world_A config_claude ?s1) = Inr ''claude''" by code_simp
  have h1: "run_setup world_A ?orc state_A = (Inr (), ?s1)"
    using f1 by (simp add: prod_eq_iff)
  have h2: "detect_provider world_A config_claude ?s1 = (Inr ''claude'', ?s2)"
    using f2 by (simp add: prod_eq_iff)
  have h3: "\<forall>i\<in>{1..3}. \<not> completes world_A ''claude'' i"
    by (simp add: completes_def iteration_result_def world_A_def marker_def)
  have r: "\<forall>i\<in>{1..3}. readable world_A i"
    by (simp add: readable_def world_A_def)
  have u: "[1..3::int] = [1, 2, 3]" by code_simp
  have n: "\<not> completes world_A ''claude'' 1 \<and> \<not> completes world_A ''claude'' 2
      \<and> \<not> completes world_A ''claude'' 3"
    using h3 by simp
  show ?thesis
    using exhaustion_runs_every_pass [OF h1 h2 h3] n r by (simp add: u)
qed

text \<open>
  Claim C2 as stated fails: a run of one iteration, whose output has no marker, sleeps after
  that final iteration before it returns 1.
\<close>

theorem sleep_after_final_iteration_counterexample:
  "fst (run world_A (orchestrator_paths ''d'') config_claude 1 state_A) = Inr 1
   \<and> trace (snd (run world_A (orchestrator_paths ''d'') config_claude 1 state_A)) =
       [Write ''d/progress.txt'' (progress_header world_A),
        ChatCall 1 ''go'', Backend ''claude'' 1 ''go'', Stderr ''working'', Sleep 2]"
  by code_simp

subsection \<open>Errors inside an iteration\<close>

lemma body_events_nonempty: "body_events w p i \<noteq> []"
  by (simp add: body_events_def split: sum.splits)

text \<open>
  Claim C3. Let the setup succeed and the provider be \<open>p\<close>. If iteration \<open>k < N\<close> is reached
  and the prompt read or the chat call raises \<open>e\<close> there, \<open>run\<close> still returns an exit code
  (the exception does not leave it): the handler reports the error as the last event of the
  body of iteration \<open>k\<close>, the pacing sleep follows as after any iteration that did not
  complete, and then the body of iteration \<open>k + 1\<close> runs.
\<close>

theorem iteration_error_is_contained:
  assumes "run_setup w orc st = (Inr (), st1)"
    and "detect_provider w cfg st1 = (Inr p, st2)"
    and "1 \<le> k" and "k < N"
    and "\<forall>j\<in>{1..<k}. \<not> completes w p j"
    and "iteration_result w p k = Inl e"
  shows "\<exists>code rest.
           run w orc cfg N st =
             (Inr code,
              emit (concat (map (pass_events w p) [1..k - 1])
                    @ body_events w p k @ [Sleep 2] @ body_events w p (k + 1) @ rest) st2)
           \<and> last (body_events w p k) = IterationError k e
           \<and> body_events w p (k + 1) \<noteq> []"
proof -
  have s2: "settled cfg p st2"
    using assms(2) by (rule detect_gives_settled)
  have nk: "\<not> completes w p k"
    using assms(6) by (simp add: completes_def)
  have split: "[1..N] = [1..k] @ (k + 1) # [k + 2..N]"
    using assms(3,4) upto_split3 [of 1 "k + 1" N] by (simp add: add.commute)
  have k: "[1..k] = [1..k - 1] @ [k]"
    using assms(3) upto_rec2 [of 1 k] by simp
  have pre: "\<forall>j\<in>set [1..k]. \<not> completes w p j"
    using assms(5) nk by (auto simp: less_le)
  let ?evs = "concat (map (pass_events w p) [1..k])"
  have s3: "settled cfg p (emit ?evs st2)"
    using s2 by (simp add: settled_emit)
  have s4: "settled cfg p (emit (pass_events w p (k + 1)) (emit ?evs st2))"
    using s2 by (simp add: settled_emit)
  have evs: "?evs = concat (map (pass_events w p) [1..k - 1]) @ body_events w p k @ [Sleep 2]"
    unfolding k by (simp add: pass_events_def)
  have loop: "main_loop w cfg [1..N] st2 = main_loop w cfg ((k + 1) # [k + 2..N]) (emit ?evs st2)"
    unfolding split using s2 pre by (rule main_loop_append)
  have last: "last (body_events w p k) = IterationError k e"
    using assms(6) by (simp add: body_events_def)
  have "\<exists>c rest. main_loop w cfg [1..N] st2 =
          (c, emit (?evs @ body_events w p (k + 1) @ rest) st2)"
  proof (cases "completes w p (k + 1)")
    case True
    then have "main_loop w cfg [1..N] st2 = (0, emit (?evs @ body_events w p (k + 1) @ []) st2)"
      unfolding loop by (simp add: main_loop_step [OF s3] emit_emit del: main_loop.simps)
    then show ?thesis by blast
  next
    case False
    obtain evs' where e': "snd (main_loop w cfg [k + 2..N] (emit (pass_events w p (k + 1)) (emit ?evs st2))) =
        emit evs' (emit (pass_events w p (k + 1)) (emit ?evs st2))"
      using main_loop_extends [OF s4, of w "[k + 2..N]"] by blast
    have "main_loop w cfg [1..N] st2 =
        main_loop w cfg [k + 2..N] (emit (pass_events w p (k + 1)) (emit ?evs st2))"
      unfolding loop using False by (simp add: main_loop_step [OF s3] del: main_loop.simps)
    then have "snd (main_loop w cfg [1..N] st2) =
        emit (?evs @ body_events w p (k + 1) @ ([Sleep 2] @ evs')) st2"
      using e' by (simp add: emit_emit pass_events_def)
    then have "main_loop w cfg [1..N] st2 =
        (fst (main_loop w cfg [1..N] st2), emit (?evs @ body_events w p (k + 1) @ ([Sleep 2] @ evs')) st2)"
      by (simp add: prod_eq_iff)
    then show ?thesis by blast
  qed
  then obtain c rest where
    "main_loop w cfg [1..N] st2 = (c, emit (?evs @ body_events w p (k + 1) @ rest) st2)"
    by blast
  then have "run w orc cfg N st =
      (Inr c, emit (concat (map (pass_events w p) [1..k - 1])
                    @ body_events w p k @ [Sleep 2] @ body_events w p (k + 1) @ rest) st2)"
    using run_after_setup [OF assms(1,2), of N] by (simp add: evs)
  then show ?thesis
    using last body_events_nonempty by blast
qed

theorem iteration_error_is_contained_witness:
  "iteration_result world_A ''ollama'' 1 = Inl (Exception ''timeout'')
   \<and> (\<exists>code rest.
        run world_A (orchestrator_paths ''d'') default_config 3 state_A =
          (Inr code,
           emit ([ChatCall 1 ''go'', Backend ''ollama'' 1 ''go'',
                  IterationError 1 (Exception ''timeout''), Sleep 2,
                  ChatCall 2 ''go'', Backend ''ollama'' 2 ''go'',
                  Stderr ''ok <promise>COMPLETE</promise>''] @ rest)
             (snd (detect_provider world_A default_config
                    (snd (run_setup world_A (orchestrator_paths ''d'') state_A))))))"
proof -
  let ?orc = "orchestrator_paths ''d''"
  let ?s1 = "snd (run_setup world_A ?orc state_A)"
  let ?s2 = "snd (detect_provider world_A default_config ?s1)"
  have f1: "fst (run_setup world_A ?orc state_A) = Inr ()" by code_simp
  have f2: "fst (detect_provider world_A default_config ?s1) = Inr ''ollama''" by code_simp
  have h1: "run_setup world_A ?orc state_A = (Inr (), ?s1)"
    using f1 by (simp add: prod_eq_iff)
  have h2: "detect_provider world_A default_config ?s1 = (Inr ''ollama'', ?s2)"
    using f2 by (simp add: prod_eq_iff)
  have h5: "\<forall>j\<in>{1..<1::int}. \<not> completes world_A ''ollama'' j" by simp
  have h6: "iteration_result world_A ''ollama'' 1 = Inl (Exception ''timeout'')"
    by (simp add: iteration_result_def world_A_def)
  have b1: "body_events world_A ''ollama'' 1 =
      [ChatCall 1 ''go'', Backend ''ollama'' 1 ''go'', IterationError 1 (Exception ''timeout'')]"
    by (simp add: body_events_def h6) (simp add: world_A_def)
  have b2: "body_events world_A ''ollama'' 2 =
      [ChatCall 2 ''go'', Backend ''ollama'' 2 ''go'', Stderr ''ok <promise>COMPLETE</promise>'']"
    by (simp add: body_events_def iteration_result_def world_A_def)
  show ?thesis
    using iteration_error_is_contained [OF h1 h2 _ _ h5 h6, of 3] h6
    by (simp add: b1 b2)
qed

section \<open>Properties of the backend selection\<close>

lemma run_setup_memo_eq:
  "run_setup w orc st = (r, st1) \<Longrightarrow> detected_provider st1 = detected_provider st"
  using run_setup_memo [of w orc st] by simp

lemma pass_events_unknown:
  assumes "p \<noteq> ''ollama''" and "p \<noteq> ''claude''" and "p \<noteq> ''amp''"
  shows "pass_events w p i =
     (case read_prompt w i of
        Inl e \<Rightarrow> [IterationError i e, Sleep 2]
      | Inr prompt \<Rightarrow>
          [ChatCall i prompt, IterationError i (Exception (''Unknown provider: '' @ p)), Sleep 2])"
  using assms
  by (simp add: pass_events_def body_events_def iteration_result_def split: sum.splits)

lemma not_completes_unknown:
  assumes "p \<noteq> ''ollama''" and "p \<noteq> ''claude''" and "p \<noteq> ''amp''"
  shows "\<not> completes w p i"
  using assms by (simp add: completes_def iteration_result_def split: sum.splits)

text \<open>
  Claim C7. Let the configuration say \<open>auto\<close>, let none of the three probes succeed, and let
  the client be fresh. Then \<open>detect_provider\<close> probes ollama, claude and amp in this order
  and raises the exception "No LLM provider available ..."; \<open>chat\<close> is never called during
  \<open>run\<close>; the process status is 1; and when the setup succeeds \<open>run\<close> returns exit code 1
  right after reporting that exception, with the loop not entered.
\<close>

theorem no_backend_is_startup_failure:
  assumes "provider cfg = ''auto''"
    and "\<not> check_ollama w cfg" and "\<not> check_claude w cfg" and "\<not> check_amp w"
    and "detected_provider st = None"
  shows "detect_provider w cfg st =
           (Inl (Exception no_provider_msg),
            emit [Probe ''ollama'', Probe ''claude'', Probe ''amp''] st)
    \<and> status (ending_of (fst (run w orc cfg N st))) = 1
    \<and> chat_indices (trace (snd (run w orc cfg N st))) = chat_indices (trace st)
    \<and> (\<forall>st1. run_setup w orc st = (Inr (), st1) \<longrightarrow>
          run w orc cfg N st =
            (Inr 1, emit [Probe ''ollama'', Probe ''claude'', Probe ''amp'',
                          StartupError (Exception no_provider_msg)] st1))"
proof -
  have d: "detect_provider w cfg st =
      (Inl (Exception no_provider_msg), emit [Probe ''ollama'', Probe ''claude'', Probe ''amp''] st)"
    using assms(5,1,2,3,4) by (rule detect_none_available)
  obtain r st1 where su: "run_setup w orc st = (r, st1)"
    by (cases "run_setup w orc st")
  have m1: "detected_provider st1 = None"
    using run_setup_memo_eq [OF su] assms(5) by simp
  have d1: "detect_provider w cfg st1 =
      (Inl (Exception no_provider_msg), emit [Probe ''ollama'', Probe ''claude'', Probe ''amp''] st1)"
    using m1 assms(1,2,3,4) by (rule detect_none_available)
  have c1: "chat_indices (trace st1) = chat_indices (trace st)"
    using run_setup_chat [of w orc st] su by simp
  have ok: "\<forall>s. run_setup w orc st = (Inr (), s) \<longrightarrow>
      run w orc cfg N st =
        (Inr 1, emit [Probe ''ollama'', Probe ''claude'', Probe ''amp'',
                      StartupError (Exception no_provider_msg)] s)"
    using su d1 by (auto simp: run_def log_emit emit_emit)
  have "status (ending_of (fst (run w orc cfg N st))) = 1
      \<and> chat_indices (trace (snd (run w orc cfg N st))) = chat_indices (trace st)"
  proof (cases r)
    case (Inl e)
    then show ?thesis
      using su c1 by (simp add: run_def ending_of_def)
  next
    case (Inr u)
    then show ?thesis
      using su c1 d1
      by (simp add: run_def ending_of_def log_emit emit_emit) (simp add: emit_def chat_indices_append)
  qed
  then show ?thesis
    using d ok by blast
qed

theorem no_backend_is_startup_failure_witness:
  "provider default_config = ''auto'' \<and> \<not> check_ollama world_C default_config
   \<and> detect_provider world_C default_config state_A =
       (Inl (Exception no_provider_msg),
        emit [Probe ''ollama'', Probe ''claude'', Probe ''amp''] state_A)
   \<and> status (ending_of (fst (run world_C (orchestrator_paths ''d'') default_config 5 state_A))) = 1
   \<and> chat_indices (trace (snd (run world_C (orchestrator_paths ''d'') default_config 5 state_A)))
       = []"
proof -
  have h1: "provider default_config = ''auto''" by (simp add: default_config_def)
  have h2: "\<not> check_ollama world_C default_config" by code_simp
  have h3: "\<not> check_claude world_C default_config" by code_simp
  have h4: "\<not> check_amp world_C" by code_simp
  have h5: "detected_provider state_A = None" by (simp add: state_A_def)
  have t: "trace state_A = []" by (simp add: state_A_def)
  show ?thesis
    using no_backend_is_startup_failure [OF h1 h2 h3 h4 h5, of "orchestrator_paths ''d''" 5] h1 h2
    by (simp add: t)
qed

text \<open>
  Claim C10. Let the setup succeed, the client be fresh, and the configuration pin a provider
  that is neither \<open>auto\<close> nor one of ollama, claude and amp. Then \<open>detect_provider\<close> returns
  the pinned name as it is, and \<open>run\<close> goes through all the iterations 1 to \<open>N\<close> and returns
  exit code 1: in each iteration whose prompt read succeeds \<open>chat\<close> is called and raises
  "Unknown provider: ..." (no backend is invoked), the handler reports it and the sleep
  follows.
\<close>

theorem unknown_pinned_provider_exhausts:
  assumes "run_setup w orc st = (Inr (), st1)"
    and "detected_provider st = None"
    and "provider cfg \<notin> {''auto'', ''ollama'', ''claude'', ''amp''}"
  shows "detect_provider w cfg st1 =
           (Inr (provider cfg), st1\<lparr>detected_provider := Some (provider cfg)\<rparr>)
    \<and> run w orc cfg N st =
        (Inr 1,
         emit (concat (map
                 (\<lambda>i. case read_prompt w i of
                         Inl e \<Rightarrow> [IterationError i e, Sleep 2]
                       | Inr prompt \<Rightarrow>
                           [ChatCall i prompt,
                            IterationError i (Exception (''Unknown provider: '' @ provider cfg)),
                            Sleep 2])
                 [1..N]))
           (st1\<lparr>detected_provider := Some (provider cfg)\<rparr>))"
proof -
  let ?p = "provider cfg"
  let ?s2 = "st1\<lparr>detected_provider := Some ?p\<rparr>"
  have p: "?p \<noteq> ''auto''" "?p \<noteq> ''ollama''" "?p \<noteq> ''claude''" "?p \<noteq> ''amp''"
    using assms(3) by simp_all
  have m1: "detected_provider st1 = None"
    using run_setup_memo_eq [OF assms(1)] assms(2) by simp
  have d: "detect_provider w cfg st1 = (Inr ?p, ?s2)"
    using m1 p(1) by (rule detect_pinned)
  have s2: "settled cfg ?p ?s2"
    using d by (rule detect_gives_settled)
  have pre: "\<forall>i\<in>set [1..N]. \<not> completes w ?p i"
    using not_completes_unknown [OF p(2,3,4)] by simp
  have "main_loop w cfg ([1..N] @ []) ?s2 =
      main_loop w cfg [] (emit (concat (map (pass_events w ?p) [1..N])) ?s2)"
    using s2 pre by (rule main_loop_append)
  then have loop: "main_loop w cfg [1..N] ?s2 =
      (1, emit (concat (map (pass_events w ?p) [1..N])) ?s2)"
    by simp
  have ev: "pass_events w ?p =
      (\<lambda>i. case read_prompt w i of
              Inl e \<Rightarrow> [IterationError i e, Sleep 2]
            | Inr prompt \<Rightarrow>
                [ChatCall i prompt, IterationError i (Exception (''Unknown provider: '' @ ?p)),
                 Sleep 2])"
    using pass_events_unknown [OF p(2,3,4)] by (intro ext)
  show ?thesis
    using d run_after_setup [OF assms(1) d, of N] loop by (simp add: ev)
qed

theorem unknown_pinned_provider_exhausts_witness:
  "provider config_gpt \<notin> {''auto'', ''ollama'', ''claude'', ''amp''}
   \<and> fst (run world_A (orchestrator_paths ''d'') config_gpt 2 state_A) = Inr 1
   \<and> trace (snd (run world_A (orchestrator_paths ''d'') config_gpt 2 state_A)) =
       trace (snd (run_setup world_A (orchestrator_paths ''d'') state_A))
       @ [ChatCall 1 ''go'', IterationError 1 (Exception ''Unknown provider: gpt4''), Sleep 2,
          ChatCall 2 ''go'', IterationError 2 (Exception ''Unknown provider: gpt4''), Sleep 2]"
proof -
  let ?orc = "orchestrator_paths ''d''"
  let ?s1 = "snd (run_setup world_A ?orc state_A)"
  have f1: "fst (run_setup world_A ?orc state_A) = Inr ()" by code_simp
  have h1: "run_setup world_A ?orc state_A = (Inr (), ?s1)"
    using f1 by (simp add: prod_eq_iff)
  have h2: "detected_provider state_A = None" by (simp add: state_A_def)
  have h3: "provider config_gpt \<notin> {''auto'', ''ollama'', ''claude'', ''amp''}"
    by (simp add: config_gpt_def default_config_def)
  have p: "provider config_gpt = ''gpt4''" by (simp add: config_gpt_def)
  have r: "\<And>i. read_prompt world_A i = Inr ''go''" by (simp add: world_A_def)
  have u: "[1..2::int] = [1, 2]" by code_simp
  show ?thesis
    using unknown_pinned_provider_exhausts [OF h1 h2 h3, of 2] h3
    by (simp add: p r u emit_def)
qed

subsection \<open>Model names\<close>

lemma check_ollama_exact:
  "ollama_models w (ollamaUrl cfg) = Some names \<Longrightarrow> model cfg \<in> set names \<Longrightarrow> check_ollama w cfg"
  by (simp add: check_ollama_def)

lemma check_ollama_variant:
  "ollama_models w (ollamaUrl cfg) = Some names \<Longrightarrow> model cfg @ '':'' @ tag \<in> set names \<Longrightarrow>
   check_ollama w cfg"
  by (auto simp: check_ollama_def list_ex_iff intro!: bexI [of _ "model cfg @ '':'' @ tag"])

text \<open>
  Claim C8. With the configured model \<open>llama3.1\<close>, the probe of the Ollama service succeeds
  for every listing that contains \<open>llama3.1\<close>, \<open>llama3.1:latest\<close> or \<open>llama3.1:8b\<close>, and fails
  for every listing made only of \<open>llama3\<close> and \<open>codellama3.1\<close>.
\<close>

theorem ollama_model_matching:
  assumes "model cfg = ''llama3.1''" and "ollama_models w (ollamaUrl cfg) = Some names"
  shows "(''llama3.1'' \<in> set names \<or> ''llama3.1:latest'' \<in> set names
            \<or> ''llama3.1:8b'' \<in> set names \<longrightarrow> check_ollama w cfg)
    \<and> (set names \<subseteq> {''llama3'', ''codellama3.1''} \<longrightarrow> \<not> check_ollama w cfg)"
proof -
  have a: "''llama3.1'' \<in> set names \<Longrightarrow> check_ollama w cfg"
    using check_ollama_exact [OF assms(2)] assms(1) by simp
  have b: "''llama3.1:latest'' \<in> set names \<Longrightarrow> check_ollama w cfg"
    using check_ollama_variant [OF assms(2), of "''latest''"] assms(1) by simp
  have c: "''llama3.1:8b'' \<in> set names \<Longrightarrow> check_ollama w cfg"
    using check_ollama_variant [OF assms(2), of "''8b''"] assms(1) by simp
  have d: "set names \<subseteq> {''llama3'', ''codellama3.1''} \<Longrightarrow> \<not> check_ollama w cfg"
  proof -
    assume s: "set names \<subseteq> {''llama3'', ''codellama3.1''}"
    have "\<forall>name\<in>set names. name \<noteq> ''llama3.1'' \<and> name \<noteq> ''llama3.1:latest''
        \<and> \<not> prefix ''llama3.1:'' name"
      using s by auto
    then show "\<not> check_ollama w cfg"
      using assms by (auto simp: check_ollama_def list_ex_iff)
  qed
  show ?thesis using a b c d by blast
qed

theorem ollama_model_matching_witness:
  "check_ollama (world_A\<lparr>ollama_models := (\<lambda>u. Some [''mistral'', ''llama3.1:8b''])\<rparr>) default_config
   \<and> check_ollama (world_A\<lparr>ollama_models := (\<lambda>u. Some [''llama3.1:latest''])\<rparr>) default_config
   \<and> check_ollama (world_A\<lparr>ollama_models := (\<lambda>u. Some [''llama3.1''])\<rparr>) default_config
   \<and> \<not> check_ollama (world_A\<lparr>ollama_models := (\<lambda>u. Some [''llama3''])\<rparr>) default_config
   \<and> \<not> check_ollama (world_A\<lparr>ollama_models := (\<lambda>u. Some [''codellama3.1''])\<rparr>) default_config"
proof -
  have m: "model default_config = ''llama3.1''" by (simp add: default_config_def)
  have l: "\<And>names. ollama_models (world_A\<lparr>ollama_models := (\<lambda>u. Some names)\<rparr>)
      (ollamaUrl default_config) = Some names" by simp
  show ?thesis
    using ollama_model_matching [OF m l, of "[''mistral'', ''llama3.1:8b'']"]
      ollama_model_matching [OF m l, of "[''llama3.1:latest'']"]
      ollama_model_matching [OF m l, of "[''llama3.1'']"]
      ollama_model_matching [OF m l, of "[''llama3'']"]
      ollama_model_matching [OF m l, of "[''codellama3.1'']"]
    by simp
qed

section \<open>Properties of the configuration loading\<close>

text \<open>
  Claim C9. When the configuration file is absent, \<open>load_config\<close> prints a warning and
  returns the defaults (\<open>auto\<close>, \<open>llama3.1\<close>, an empty key, the local Ollama URL), and \<open>main\<close>
  goes on to \<open>run\<close> with them. When the file is not valid JSON, \<open>load_config\<close> reports it and
  exits with code 1, so that \<open>main\<close> ends with status 1 having done nothing else: no file is
  touched and neither the setup nor the loop has run.
\<close>

theorem config_missing_or_malformed:
  "(files st (config_file script_dir config) = None \<longrightarrow>
      load_config w (config_file script_dir config) st =
        (Inr \<lparr>provider = ''auto'', model = ''llama3.1'', apiKey = '''',
              ollamaUrl = ''http://localhost:11434''\<rparr>,
         log (Stderr (config_missing_warning (config_file script_dir config))) st)
      \<and> main w script_dir N config st =
          (ending_of (fst (run w (orchestrator_paths script_dir) default_config N
             (log (Stderr (config_missing_warning (config_file script_dir config))) st
                \<lparr>detected_provider := None\<rparr>))),
           snd (run w (orchestrator_paths script_dir) default_config N
             (log (Stderr (config_missing_warning (config_file script_dir config))) st
                \<lparr>detected_provider := None\<rparr>))))
   \<and> (\<forall>text. files st (config_file script_dir config) = Some text \<and> json_loads w text = None \<longrightarrow>
        load_config w (config_file script_dir config) st
          = (Inl (Exited 1), log (StartupError JSONDecodeError) st)
        \<and> main w script_dir N config st = (Exited 1, log (StartupError JSONDecodeError) st)
        \<and> status (fst (main w script_dir N config st)) = 1)"
  by (simp add: load_config_def main_def default_config_def split: prod.splits)

theorem config_missing_or_malformed_witness:
  "files state_A (config_file ''d'' None) = None
   \<and> fst (load_config world_A (config_file ''d'' None) state_A) = Inr default_config
   \<and> files state_D (config_file ''d'' None) = Some ''{ broken''
   \<and> json_loads world_D ''{ broken'' = None
   \<and> main world_D ''d'' 10 None state_D
        = (Exited 1, log (StartupError JSONDecodeError) state_D)"
proof -
  have a: "files state_A (config_file ''d'' None) = None"
    by (simp add: state_A_def)
  have b: "files state_D (config_file ''d'' None) = Some ''{ broken''"
    by (simp add: state_D_def config_file_def path_join_def)
  have c: "json_loads world_D ''{ broken'' = None"
    by (simp add: world_D_def)
  show ?thesis
    using config_missing_or_malformed [of state_A "''d''" None world_A 10]
      config_missing_or_malformed [of state_D "''d''" None world_D 10] a b c
    by (simp add: default_config_def)
qed

section \<open>Properties of the setup\<close>

lemma archive_fires:
  assumes "files st (prd_file orc) = Some prd_text"
    and "files st (last_branch_file orc) = Some marker_text"
    and "json_loads w prd_text = Some prd"
    and "py_get prd ''branchName'' (JStr '''') = Inr cur"
    and "truthy cur" and "str_strip marker_text \<noteq> []" and "cur \<noteq> JStr (str_strip marker_text)"
    and "folder = path_join (archive_dir orc)
           (date_str w @ ''-'' @ pure_tail (str_replace ''ralph/'' '''' (str_strip marker_text)))"
  shows "archive_previous_run w orc st =
     (Inr (),
      init_progress_file w orc
        (copy_file (progress_file orc) (path_join folder ''progress.txt'')
          (copy_file (prd_file orc) (path_join folder ''prd.json'')
            (log (Mkdir folder) (st\<lparr>dirs := insert folder (dirs st)\<rparr>)))))"
  using assms by (simp add: archive_previous_run_def Let_def)

lemma archive_idle:
  assumes "\<not> (\<exists>prd_text marker_text prd cur.
      files st (prd_file orc) = Some prd_text \<and> files st (last_branch_file orc) = Some marker_text
      \<and> json_loads w prd_text = Some prd \<and> py_get prd ''branchName'' (JStr '''') = Inr cur
      \<and> truthy cur \<and> str_strip marker_text \<noteq> [] \<and> cur \<noteq> JStr (str_strip marker_text))"
  shows "snd (archive_previous_run w orc st) = st"
  using assms
  by (auto simp: archive_previous_run_def Let_def split: option.splits sum.splits)

lemma archive_fires_paths:
  assumes "files st (path_join d ''prd.json'') = Some prd_text"
    and "files st (path_join d ''.last-branch'') = Some marker_text"
    and "json_loads w prd_text = Some prd"
    and "py_get prd ''branchName'' (JStr '''') = Inr cur"
    and "truthy cur" and "str_strip marker_text \<noteq> []" and "cur \<noteq> JStr (str_strip marker_text)"
    and "folder = path_join (path_join d ''archive'')
           (date_str w @ ''-'' @ pure_tail (str_replace ''ralph/'' '''' (str_strip marker_text)))"
  shows "archive_previous_run w (orchestrator_paths d) st =
     (Inr (),
      st\<lparr>files := (case files st (path_join d ''progress.txt'') of
                      None \<Rightarrow> (files st)(path_join folder ''prd.json'' \<mapsto> prd_text,
                                          path_join d ''progress.txt'' \<mapsto> progress_header w)
                    | Some c \<Rightarrow> (files st)(path_join folder ''prd.json'' \<mapsto> prd_text,
                                           path_join folder ''progress.txt'' \<mapsto> c,
                                           path_join d ''progress.txt'' \<mapsto> progress_header w)),
         dirs := insert folder (dirs st),
         trace := trace st @ [Mkdir folder, Copy (path_join d ''prd.json'') (path_join folder ''prd.json'')]
                   @ (case files st (path_join d ''progress.txt'') of
                        None \<Rightarrow> []
                      | Some c \<Rightarrow> [Copy (path_join d ''progress.txt'') (path_join folder ''progress.txt'')])
                   @ [Write (path_join d ''progress.txt'') (progress_header w)]\<rparr>)"
proof -
  have o: "prd_file (orchestrator_paths d) = path_join d ''prd.json''"
    "last_branch_file (orchestrator_paths d) = path_join d ''.last-branch''"
    "progress_file (orchestrator_paths d) = path_join d ''progress.txt''"
    "archive_dir (orchestrator_paths d) = path_join d ''archive''"
    by (simp_all add: orchestrator_paths_def)
  have n: "path_join folder ''prd.json'' \<noteq> path_join d ''progress.txt''"
    unfolding assms(8) by (simp add: path_join_def)
  show ?thesis
    unfolding archive_fires [of st "orchestrator_paths d", unfolded o, OF assms]
    using assms(1) n
    by (simp add: copy_file_def init_progress_file_def log_def o split: option.splits)
qed

lemma track_ok_cases:
  assumes "track_current_branch w (orchestrator_paths d) st = (Inr (), st2)"
  shows "st2 = st \<or>
    (\<exists>b. st2 = st\<lparr>files := (files st)(path_join d ''.last-branch'' \<mapsto> b),
                    trace := trace st @ [Write (path_join d ''.last-branch'') b]\<rparr>)"
  using assms
  by (auto simp: track_current_branch_def orchestrator_paths_def log_def
      split: option.splits sum.splits json.splits if_splits)











lemma strip_taskA: "str_strip ''ralph/taskA'' = ''ralph/taskA''"
  by (simp add: str_strip_def is_space_def)

lemma replace_taskA: "str_replace ''ralph/'' '''' ''ralph/taskA'' = ''taskA''"
  by simp

lemma tail_taskA: "pure_tail ''taskA'' = ''taskA''"
  by (simp add: pure_tail_def)



text \<open>
  Claim C5, amended. Let the marker hold \<open>ralph/taskA\<close> and the task descriptor name the
  branch \<open>ralph/taskB\<close>. Then \<open>archive_previous_run\<close> creates the directory
  \<open>archive/<date>-taskA\<close>, named after the previous branch with \<open>ralph/\<close> removed; the
  directory receives a copy of prd.json and, when progress.txt exists, a copy of it as it
  was; and the last thing done is the reset of progress.txt to a fresh header.
\<close>

theorem archive_on_task_change:
  assumes "files st (path_join d ''prd.json'') = Some prd_text"
    and "json_loads w prd_text = Some prd"
    and "py_get prd ''branchName'' (JStr '''') = Inr (JStr ''ralph/taskB'')"
    and "files st (path_join d ''.last-branch'') = Some marker_text"
    and "str_strip marker_text = ''ralph/taskA''"
    and "folder = path_join (path_join d ''archive'') (date_str w @ ''-taskA'')"
    and "st' = snd (archive_previous_run w (orchestrator_paths d) st)"
  shows "fst (archive_previous_run w (orchestrator_paths d) st) = Inr ()
    \<and> dirs st' = insert folder (dirs st)
    \<and> files st' (path_join folder ''prd.json'') = Some prd_text
    \<and> (\<forall>c. files st (path_join d ''progress.txt'') = Some c \<longrightarrow>
          files st' (path_join folder ''progress.txt'') = Some c)
    \<and> files st' (path_join d ''progress.txt'') = Some (progress_header w)
    \<and> last (trace st') = Write (path_join d ''progress.txt'') (progress_header w)"
proof -
  have f: "folder = path_join (path_join d ''archive'')
      (date_str w @ ''-'' @ pure_tail (str_replace ''ralph/'' '''' (str_strip marker_text)))"
    using assms(5,6) by (simp add: replace_taskA tail_taskA)
  have n: "path_join folder ''prd.json'' \<noteq> path_join d ''progress.txt''"
    "path_join folder ''prd.json'' \<noteq> path_join folder ''progress.txt''"
    "path_join folder ''progress.txt'' \<noteq> path_join d ''progress.txt''"
    unfolding assms(6) by (simp_all add: path_join_def)
  have "archive_previous_run w (orchestrator_paths d) st =
     (Inr (),
      st\<lparr>files := (case files st (path_join d ''progress.txt'') of
                      None \<Rightarrow> (files st)(path_join folder ''prd.json'' \<mapsto> prd_text,
                                          path_join d ''progress.txt'' \<mapsto> progress_header w)
                    | Some c \<Rightarrow> (files st)(path_join folder ''prd.json'' \<mapsto> prd_text,
                                           path_join folder ''progress.txt'' \<mapsto> c,
                                           path_join d ''progress.txt'' \<mapsto> progress_header w)),
         dirs := insert folder (dirs st),
         trace := trace st @ [Mkdir folder, Copy (path_join d ''prd.json'') (path_join folder ''prd.json'')]
                   @ (case files st (path_join d ''progress.txt'') of
                        None \<Rightarrow> []
                      | Some c \<Rightarrow> [Copy (path_join d ''progress.txt'') (path_join folder ''progress.txt'')])
                   @ [Write (path_join d ''progress.txt'') (progress_header w)]\<rparr>)"
    using assms(1) assms(4) assms(2) assms(3) _ _ _ f
    by (rule archive_fires_paths) (simp_all add: assms(5))
  then show ?thesis
    using n by (simp add: assms(7) split: option.splits)
qed

theorem archive_on_task_change_witness:
  "str_strip ''ralph/taskA'' = ''ralph/taskA''
   \<and> fst (archive_previous_run world_E (orchestrator_paths ''d'') state_E) = Inr ()
   \<and> dirs (snd (archive_previous_run world_E (orchestrator_paths ''d'') state_E))
       = {''d/archive/2026-01-01-taskA''}
   \<and> files (snd (archive_previous_run world_E (orchestrator_paths ''d'') state_E))
        ''d/archive/2026-01-01-taskA/prd.json'' = Some ''B''
   \<and> files (snd (archive_previous_run world_E (orchestrator_paths ''d'') state_E))
        ''d/archive/2026-01-01-taskA/progress.txt'' = Some ''old notes''
   \<and> files (snd (archive_previous_run world_E (orchestrator_paths ''d'') state_E))
        ''d/progress.txt'' = Some (progress_header world_E)"
proof -
  have a: "files state_E (path_join ''d'' ''prd.json'') = Some ''B''"
    "files state_E (path_join ''d'' ''.last-branch'') = Some ''ralph/taskA''"
    by (simp_all add: state_E_def path_join_def)
  have p: "files state_E (path_join ''d'' ''progress.txt'') = Some ''old notes''"
    by (simp add: state_E_def path_join_def)
  have b: "json_loads world_E ''B'' = Some (JObj [(''branchName'', JStr ''ralph/taskB'')])"
    by (simp add: world_E_def)
  have c: "py_get (JObj [(''branchName'', JStr ''ralph/taskB'')]) ''branchName'' (JStr '''')
      = Inr (JStr ''ralph/taskB'')"
    by simp
  have f: "''d/archive/2026-01-01-taskA''
      = path_join (path_join ''d'' ''archive'') (date_str world_E @ ''-taskA'')"
    by (simp add: path_join_def world_E_def world_A_def)
  have e: "dirs state_E = {}" by (simp add: state_E_def)
  have j: "path_join ''d/archive/2026-01-01-taskA'' ''prd.json''
      = ''d/archive/2026-01-01-taskA/prd.json''"
    "path_join ''d/archive/2026-01-01-taskA'' ''progress.txt''
      = ''d/archive/2026-01-01-taskA/progress.txt''"
    "path_join ''d'' ''progress.txt'' = ''d/progress.txt''"
    by (simp_all add: path_join_def)
  show ?thesis
    using archive_on_task_change [OF a(1) b c a(2) strip_taskA f refl] p
    by (simp add: strip_taskA e j)
qed

text \<open>
  Claim C5 as stated fails: with the marker \<open>ralph/taskA\<close> and the descriptor on
  \<open>ralph/taskB\<close>, the archive directory is \<open><date>-taskA\<close>; no directory \<open><date>-taskB\<close> is
  created.
\<close>

theorem archive_named_after_current_task_counterexample:
  "dirs (snd (archive_previous_run world_E (orchestrator_paths ''d'') state_E))
     = {''d/archive/2026-01-01-taskA''}
   \<and> ''d/archive/2026-01-01-taskB''
       \<notin> dirs (snd (archive_previous_run world_E (orchestrator_paths ''d'') state_E))"
  by (simp add: archive_previous_run_def orchestrator_paths_def path_join_def state_E_def
      world_E_def world_A_def str_strip_def is_space_def pure_tail_def copy_file_def
      init_progress_file_def log_def Let_def)

subsection \<open>The progress log\<close>

lemma run_setup_ok:
  assumes "run_setup w orc st = (Inr (), st')"
  shows "\<exists>st1 st2. archive_previous_run w orc st = (Inr (), st1)
      \<and> track_current_branch w orc st1 = (Inr (), st2)
      \<and> st' = (if files st2 (progress_file orc) = None
                then init_progress_file w orc st2 else st2)"
  using assms by (auto simp: run_setup_def split: prod.splits sum.splits)

lemma archive_ok_cases:
  assumes "archive_previous_run w (orchestrator_paths d) st = (Inr (), st1)"
  shows "st1 = st \<or>
    (\<exists>folder copies F.
        st1 = st\<lparr>files := F, dirs := insert folder (dirs st),
                  trace := trace st @ Mkdir folder # copies
                    @ [Write (path_join d ''progress.txt'') (progress_header w)]\<rparr>
        \<and> F (path_join d ''progress.txt'') = Some (progress_header w)
        \<and> mkdirs copies = []
        \<and> (\<forall>c. Write (path_join d ''progress.txt'') c \<notin> set copies))"
proof (cases "\<exists>prd_text marker_text prd cur.
      files st (path_join d ''prd.json'') = Some prd_text
      \<and> files st (path_join d ''.last-branch'') = Some marker_text
      \<and> json_loads w prd_text = Some prd \<and> py_get prd ''branchName'' (JStr '''') = Inr cur
      \<and> truthy cur \<and> str_strip marker_text \<noteq> [] \<and> cur \<noteq> JStr (str_strip marker_text)")
  case False
  have o: "prd_file (orchestrator_paths d) = path_join d ''prd.json''"
    "last_branch_file (orchestrator_paths d) = path_join d ''.last-branch''"
    by (simp_all add: orchestrator_paths_def)
  have "snd (archive_previous_run w (orchestrator_paths d) st) = st"
    using False archive_idle [of st "orchestrator_paths d" w, unfolded o] by blast
  then show ?thesis using assms by simp
next
  case True
  then obtain prd_text marker_text prd cur where c:
    "files st (path_join d ''prd.json'') = Some prd_text"
    "files st (path_join d ''.last-branch'') = Some marker_text"
    "json_loads w prd_text = Some prd" "py_get prd ''branchName'' (JStr '''') = Inr cur"
    "truthy cur" "str_strip marker_text \<noteq> []" "cur \<noteq> JStr (str_strip marker_text)"
    by blast
  define folder where "folder = path_join (path_join d ''archive'')
      (date_str w @ ''-'' @ pure_tail (str_replace ''ralph/'' '''' (str_strip marker_text)))"
  note r = archive_fires_paths [OF c folder_def]
  show ?thesis
  proof (cases "files st (path_join d ''progress.txt'')")
    case None
    have "st1 = st\<lparr>files := (files st)(path_join folder ''prd.json'' \<mapsto> prd_text,
                                          path_join d ''progress.txt'' \<mapsto> progress_header w),
                    dirs := insert folder (dirs st),
                    trace := trace st
                      @ Mkdir folder # [Copy (path_join d ''prd.json'') (path_join folder ''prd.json'')]
                      @ [Write (path_join d ''progress.txt'') (progress_header w)]\<rparr>"
      using assms r None by simp
    moreover have "mkdirs [Copy (path_join d ''prd.json'') (path_join folder ''prd.json'')] = []
        \<and> (\<forall>c. Write (path_join d ''progress.txt'') c
              \<notin> set [Copy (path_join d ''prd.json'') (path_join folder ''prd.json'')])"
      by simp
    moreover have "((files st)(path_join folder ''prd.json'' \<mapsto> prd_text,
        path_join d ''progress.txt'' \<mapsto> progress_header w)) (path_join d ''progress.txt'')
        = Some (progress_header w)"
      by simp
    ultimately show ?thesis by blast
  next
    case (Some c0)
    let ?copies = "[Copy (path_join d ''prd.json'') (path_join folder ''prd.json''),
                    Copy (path_join d ''progress.txt'') (path_join folder ''progress.txt'')]"
    have "st1 = st\<lparr>files := (files st)(path_join folder ''prd.json'' \<mapsto> prd_text,
                                          path_join folder ''progress.txt'' \<mapsto> c0,
                                          path_join d ''progress.txt'' \<mapsto> progress_header w),
                    dirs := insert folder (dirs st),
                    trace := trace st @ Mkdir folder # ?copies
                      @ [Write (path_join d ''progress.txt'') (progress_header w)]\<rparr>"
      using assms r Some by simp
    moreover have "mkdirs ?copies = [] \<and> (\<forall>c. Write (path_join d ''progress.txt'') c \<notin> set ?copies)"
      by simp
    moreover have "((files st)(path_join folder ''prd.json'' \<mapsto> prd_text,
        path_join folder ''progress.txt'' \<mapsto> c0,
        path_join d ''progress.txt'' \<mapsto> progress_header w)) (path_join d ''progress.txt'')
        = Some (progress_header w)"
      by simp
    ultimately show ?thesis by blast
  qed
qed

text \<open>
  Claim C6, amended. In a setup that succeeds in the run directory \<open>d\<close>, progress.txt is
  written exactly when an archive directory was made or progress.txt did not exist at the
  start; what is written is always the fresh header, so the file then holds the header, and
  in every other setup the file is left as it was. Whether .last-branch existed plays no
  part.
\<close>

theorem progress_log_reset_condition:
  assumes "run_setup w (orchestrator_paths d) st = (Inr (), st')"
  shows "\<exists>evs. trace st' = trace st @ evs
    \<and> ((\<exists>c. Write (path_join d ''progress.txt'') c \<in> set evs)
         \<longleftrightarrow> (mkdirs evs \<noteq> [] \<or> files st (path_join d ''progress.txt'') = None))
    \<and> (\<forall>c. Write (path_join d ''progress.txt'') c \<in> set evs \<longrightarrow> c = progress_header w)
    \<and> files st' (path_join d ''progress.txt'') =
        (if mkdirs evs \<noteq> [] \<or> files st (path_join d ''progress.txt'') = None
         then Some (progress_header w) else files st (path_join d ''progress.txt''))"
proof -
  let ?orc = "orchestrator_paths d"
  let ?prog = "path_join d ''progress.txt''"
  let ?last = "path_join d ''.last-branch''"
  have o: "progress_file ?orc = ?prog" by (simp add: orchestrator_paths_def)
  have n: "?last \<noteq> ?prog" by (simp add: path_join_def)
  obtain st1 st2 where
    a: "archive_previous_run w ?orc st = (Inr (), st1)" and
    t: "track_current_branch w ?orc st1 = (Inr (), st2)" and
    f: "st' = (if files st2 ?prog = None then init_progress_file w ?orc st2 else st2)"
    using run_setup_ok [OF assms] unfolding o by blast
  from archive_ok_cases [OF a] track_ok_cases [OF t] show ?thesis
  proof (elim disjE exE conjE)
    assume "st1 = st" "st2 = st1"
    then show ?thesis
      using f by (cases "files st ?prog") (simp_all add: init_progress_file_def log_def o)
  next
    fix b
    assume "st1 = st" "st2 = st1\<lparr>files := (files st1)(?last \<mapsto> b),
        trace := trace st1 @ [Write ?last b]\<rparr>"
    then show ?thesis
      using f n by (cases "files st ?prog") (simp_all add: init_progress_file_def log_def o)
  next
    fix folder copies F
    assume "st2 = st1" "st1 = st\<lparr>files := F, dirs := insert folder (dirs st),
        trace := trace st @ Mkdir folder # copies @ [Write ?prog (progress_header w)]\<rparr>"
      "F ?prog = Some (progress_header w)" "mkdirs copies = []"
      "\<forall>c. Write ?prog c \<notin> set copies"
    then show ?thesis
      using f by (auto simp: mkdirs_append)
  next
    fix b folder copies F
    assume "st2 = st1\<lparr>files := (files st1)(?last \<mapsto> b),
        trace := trace st1 @ [Write ?last b]\<rparr>"
      "st1 = st\<lparr>files := F, dirs := insert folder (dirs st),
        trace := trace st @ Mkdir folder # copies @ [Write ?prog (progress_header w)]\<rparr>"
      "F ?prog = Some (progress_header w)" "mkdirs copies = []"
      "\<forall>c. Write ?prog c \<notin> set copies"
    then show ?thesis
      using f n by (auto simp: mkdirs_append)
  qed
qed

theorem progress_log_reset_condition_witness:
  "fst (run_setup world_E (orchestrator_paths ''d'') state_E) = Inr ()
   \<and> mkdirs (trace (snd (run_setup world_E (orchestrator_paths ''d'') state_E)))
       = [''d/archive/2026-01-01-taskA'']
   \<and> files (snd (run_setup world_E (orchestrator_paths ''d'') state_E)) ''d/progress.txt''
       = Some (progress_header world_E)"
proof -
  let ?s = "snd (run_setup world_E (orchestrator_paths ''d'') state_E)"
  have f1: "fst (run_setup world_E (orchestrator_paths ''d'') state_E) = Inr ()" by code_simp
  have h: "run_setup world_E (orchestrator_paths ''d'') state_E = (Inr (), ?s)"
    using f1 by (simp add: prod_eq_iff)
  have m: "mkdirs (trace ?s) = [''d/archive/2026-01-01-taskA'']" by code_simp
  have t: "trace state_E = []" by (simp add: state_E_def)
  have j: "path_join ''d'' ''progress.txt'' = ''d/progress.txt''" by (simp add: path_join_def)
  show ?thesis
    using progress_log_reset_condition [OF h] f1 m
    by (auto simp: t j)
qed

text \<open>
  Claim C6 as stated fails: in a run directory with a progress log and no marker, the setup
  records the branch and leaves the progress log as it was.
\<close>

theorem progress_kept_without_marker_counterexample:
  "files state_G ''d/.last-branch'' = None
   \<and> fst (run_setup world_E (orchestrator_paths ''d'') state_G) = Inr ()
   \<and> trace (snd (run_setup world_E (orchestrator_paths ''d'') state_G))
       = [Write ''d/.last-branch'' ''ralph/taskB'']
   \<and> files (snd (run_setup world_E (orchestrator_paths ''d'') state_G)) ''d/progress.txt''
       = Some ''old notes''"
  by code_simp

end
